theory Spec2Isabelle
  imports Main "HOL-Library.Word"
begin

section \<open>Values, exceptions and the configuration constants\<close>

text \<open>
  The program is a single Python module, \<^verbatim>\<open>deepseek-assistant.py\<close>. Python strings are
  modelled as \<^typ>\<open>string\<close>, one \<^typ>\<open>char\<close> standing for one Python character.
  An exception is a value; a function that can raise returns \<open>exn + 'a\<close> with \<open>Inl\<close> for
  the exception, paired with the session state it leaves behind where it mutates state
  before raising.
\<close>

datatype exn =
    IndexError
  | KeyError
  | TypeError
  | AttributeError
  | RequestException string
  | OtherException string

text \<open>
  The value \<^verbatim>\<open>response.json()\<close> returns: a parsed JSON document. An object is kept as
  the list of its key/value pairs, whose keys are distinct as those of a Python dictionary
  are; a number keeps its literal text.
\<close>

datatype json =
    JNull
  | JBool bool
  | JNum string
  | JStr string
  | JArr "json list"
  | JObj "(string \<times> json) list"

definition MAX_CONTEXT_MESSAGES :: int where
  "MAX_CONTEXT_MESSAGES = 8"

definition MAX_FILE_CONTENT :: nat where
  "MAX_FILE_CONTENT = 1000"

section \<open>Python list and dictionary operations used by the module\<close>

text \<open>\<^verbatim>\<open>xs[i:]\<close> for an arbitrary integer \<open>i\<close>: a negative start counts from the end and is
  clipped at the front of the list.\<close>

definition py_slice_from :: "int \<Rightarrow> 'a list \<Rightarrow> 'a list" where
  "py_slice_from i xs =
     (if i < 0 then drop (nat (int (length xs) + i)) xs else drop (nat i) xs)"

text \<open>\<^verbatim>\<open>v[:n]\<close> on a JSON value: strings and lists can be sliced, everything else raises
  (a dictionary too: \<^verbatim>\<open>TypeError\<close> for the unhashable slice, \<^verbatim>\<open>KeyError\<close> from Python 3.12 on;
  no property below depends on which).\<close>

fun py_slice_to :: "nat \<Rightarrow> json \<Rightarrow> exn + json" where
  "py_slice_to n (JStr s) = Inr (JStr (take n s))"
| "py_slice_to n (JArr xs) = Inr (JArr (take n xs))"
| "py_slice_to n v = Inl TypeError"

text \<open>\<^verbatim>\<open>v.get(k, d)\<close>: only a dictionary has the method.\<close>

fun py_get :: "json \<Rightarrow> string \<Rightarrow> json \<Rightarrow> exn + json" where
  "py_get (JObj kvs) k d = Inr (case map_of kvs k of None \<Rightarrow> d | Some v \<Rightarrow> v)"
| "py_get v k d = Inl AttributeError"

text \<open>\<^verbatim>\<open>v[0]\<close>: the first element of a list or string, \<^verbatim>\<open>IndexError\<close> when it is empty,
  \<^verbatim>\<open>KeyError\<close> on a dictionary (its keys are strings), \<^verbatim>\<open>TypeError\<close> otherwise.\<close>

fun py_index0 :: "json \<Rightarrow> exn + json" where
  "py_index0 (JArr []) = Inl IndexError"
| "py_index0 (JArr (x # xs)) = Inr x"
| "py_index0 (JStr []) = Inl IndexError"
| "py_index0 (JStr (c # cs)) = Inr (JStr [c])"
| "py_index0 (JObj kvs) = Inl KeyError"
| "py_index0 v = Inl TypeError"

text \<open>\<^verbatim>\<open>sep.join(xs)\<close>.\<close>

fun join :: "string \<Rightarrow> string list \<Rightarrow> string" where
  "join sep [] = []"
| "join sep [x] = x"
| "join sep (x # y # ys) = x @ sep @ join sep (y # ys)"

section \<open>ChatMemory\<close>

text \<open>
  A message is the dictionary \<^verbatim>\<open>{"role": role, "content": content}\<close>. The content is
  annotated \<^verbatim>\<open>str\<close>, but \<^verbatim>\<open>query_deepseek\<close> stores whatever the response carries, so
  the field holds a JSON value; a Python string \<open>s\<close> is \<open>JStr s\<close>.
\<close>

record message =
  role :: string
  content :: json

text \<open>The two lists kept in \<^verbatim>\<open>st.session_state\<close>: \<open>messages\<close> is what the page shows,
  \<open>full_history\<close> is what is sent to the API.\<close>

record session_state =
  messages :: "message list"
  full_history :: "message list"

text \<open>\<^verbatim>\<open>initialize_session\<close>: a session state without the key \<^verbatim>\<open>"messages"\<close> (\<open>None\<close>)
  gets two empty lists, an existing one is kept.\<close>

definition initialize_session :: "session_state option \<Rightarrow> session_state" where
  "initialize_session ss =
     (case ss of None \<Rightarrow> \<lparr>messages = [], full_history = []\<rparr> | Some st \<Rightarrow> st)"

text \<open>
  The loop of \<^verbatim>\<open>add_message\<close>:
  \<^verbatim>\<open>
  while len(full_history) > self.max_messages:
      removed = full_history.pop(0)
      logger.debug(f"Trimming message: {removed['content'][:50]}...")
  \<close>
  \<^verbatim>\<open>pop(0)\<close> raises \<^verbatim>\<open>IndexError\<close> on the empty list, and the f-string is evaluated
  (whatever the log level), so the slice raises on content that cannot be sliced; the
  element is already removed then. The result is the outcome, the messages removed (in
  the order of their removal) and the list that is left.
\<close>

function trim :: "int \<Rightarrow> message list \<Rightarrow> (exn + unit) \<times> message list \<times> message list" where
  "trim max_messages fh =
     (if int (length fh) > max_messages then
        (case fh of
           [] \<Rightarrow> (Inl IndexError, [], [])
         | removed # rest \<Rightarrow>
             (case py_slice_to 50 (content removed) of
                Inl e \<Rightarrow> (Inl e, [removed], rest)
              | Inr _ \<Rightarrow>
                  (case trim max_messages rest of
                     (r, ev, fh') \<Rightarrow> (r, removed # ev, fh'))))
      else (Inr (), [], fh))"
  by pat_completeness auto
termination
  by (relation "measure (\<lambda>(m, fh). length fh)") auto

declare trim.simps [simp del]

definition add_message ::
    "int \<Rightarrow> string \<Rightarrow> json \<Rightarrow> session_state \<Rightarrow> (exn + unit) \<times> message list \<times> session_state" where
  "add_message max_messages r c st =
     (let m = \<lparr>role = r, content = c\<rparr> in
      case trim max_messages (full_history st @ [m]) of
        (res, ev, fh') \<Rightarrow> (res, ev, \<lparr>messages = messages st @ [m], full_history = fh'\<rparr>))"

text \<open>\<^verbatim>\<open>get_context\<close> reads the session state; it is returned beside the result, as every
  operation on the memory does.\<close>

definition get_context :: "int \<Rightarrow> string \<Rightarrow> session_state \<Rightarrow> message list \<times> session_state" where
  "get_context max_messages system_prompt st =
     ([\<lparr>role = ''system'', content = JStr system_prompt\<rparr>]
        @ py_slice_from (- max_messages) (full_history st), st)"

definition clear_memory :: "session_state \<Rightarrow> session_state" where
  "clear_memory st = \<lparr>messages = [], full_history = []\<rparr>"

text \<open>
  A sequence of \<^verbatim>\<open>add_message\<close> calls, each given as \<open>(role, content)\<close>. A call that
  raises leaves its mutation in the session state, which outlives the call, so the next
  call starts from it. The result lists the outcome of every call, all the messages
  removed, and the final state.
\<close>

fun add_messages ::
    "int \<Rightarrow> (string \<times> json) list \<Rightarrow> session_state
       \<Rightarrow> (exn + unit) list \<times> message list \<times> session_state" where
  "add_messages max_messages [] st = ([], [], st)"
| "add_messages max_messages ((r, c) # cs) st =
     (case add_message max_messages r c st of
        (res, ev, st') \<Rightarrow>
          (case add_messages max_messages cs st' of
             (ress, evs, st'') \<Rightarrow> (res # ress, ev @ evs, st'')))"

text \<open>The message a call \<open>(role, content)\<close> appends.\<close>

definition mk_message :: "string \<times> json \<Rightarrow> message" where
  "mk_message rc = \<lparr>role = fst rc, content = snd rc\<rparr>"

text \<open>In the words of the specification: the last \<open>n\<close> entries of a log.\<close>

definition last_entries :: "nat \<Rightarrow> 'a list \<Rightarrow> 'a list" where
  "last_entries n xs = drop (length xs - n) xs"

text \<open>A content that is a Python string, as the annotation of \<^verbatim>\<open>add_message\<close> asks.\<close>

fun is_str :: "json \<Rightarrow> bool" where
  "is_str (JStr s) = True"
| "is_str v = False"

section \<open>process_uploaded_files\<close>

type_synonym byte = "8 word"

text \<open>
  An uploaded file as the function sees it: its name, its declared content type, what
  \<^verbatim>\<open>file.read()\<close> gives, and what \<^verbatim>\<open>PyPDF2.PdfReader(file).pages\<close> gives: an exception,
  or the pages, each page being the outcome of its \<^verbatim>\<open>extract_text()\<close> (an exception,
  \<^verbatim>\<open>None\<close>, or a string).
\<close>

type_synonym pdf_page = "exn + string option"

record uploaded_file =
  name :: string
  content_type :: string
  read :: "exn + byte list"
  pdf_pages :: "exn + pdf_page list"

text \<open>\<^verbatim>\<open>page.extract_text() or ""\<close> once \<^verbatim>\<open>extract_text\<close> has returned: \<^verbatim>\<open>None\<close> and the empty
  string both give the empty string.\<close>

definition page_text :: "string option \<Rightarrow> string" where
  "page_text t = (case t of None \<Rightarrow> [] | Some s \<Rightarrow> s)"

text \<open>The texts of the pages in turn, as the generator given to \<^verbatim>\<open>join\<close> yields them; the
  first page whose \<^verbatim>\<open>extract_text\<close> raises ends it.\<close>

fun extract_pages :: "pdf_page list \<Rightarrow> exn + string list" where
  "extract_pages [] = Inr []"
| "extract_pages (p # ps) =
     (case p of
        Inl e \<Rightarrow> Inl e
      | Inr t \<Rightarrow>
          (case extract_pages ps of
             Inl e \<Rightarrow> Inl e
           | Inr ts \<Rightarrow> Inr (page_text t # ts)))"

text \<open>
  The body of the \<^verbatim>\<open>try\<close> for one file. \<open>decode\<close> is
  \<^verbatim>\<open>bytes.decode("utf-8", errors="replace")\<close> of the Python library, which never raises.
\<close>

definition process_file :: "(byte list \<Rightarrow> string) \<Rightarrow> uploaded_file \<Rightarrow> exn + string" where
  "process_file decode file =
     (if content_type file = ''application/pdf'' then
        (case pdf_pages file of
           Inl e \<Rightarrow> Inl e
         | Inr pages \<Rightarrow>
             (case extract_pages pages of
                Inl e \<Rightarrow> Inl e
              | Inr texts \<Rightarrow>
                  Inr (''PDF_CONTENT:'' @ name file @ '': ''
                         @ take MAX_FILE_CONTENT (join '' '' texts) @ ''...'')))
      else
        (case read file of
           Inl e \<Rightarrow> Inl e
         | Inr bytes \<Rightarrow>
             Inr (''FILE_CONTENT:'' @ name file @ '': ''
                    @ take MAX_FILE_CONTENT (decode bytes) @ ''...'')))"

text \<open>The loop over the files: the snippets appended to \<^verbatim>\<open>processed_content\<close>, and the
  warnings shown (\<^verbatim>\<open>st.warning\<close>, also logged), each the file name and the exception.\<close>

fun process_loop ::
    "(byte list \<Rightarrow> string) \<Rightarrow> uploaded_file list \<Rightarrow> string list \<times> (string \<times> exn) list" where
  "process_loop decode [] = ([], [])"
| "process_loop decode (file # files) =
     (case process_loop decode files of
        (processed_content, warnings) \<Rightarrow>
          (case process_file decode file of
             Inl e \<Rightarrow> (processed_content, (name file, e) # warnings)
           | Inr snippet \<Rightarrow> (snippet # processed_content, warnings)))"

definition process_uploaded_files ::
    "(byte list \<Rightarrow> string) \<Rightarrow> uploaded_file list \<Rightarrow> string \<times> (string \<times> exn) list" where
  "process_uploaded_files decode files =
     (case process_loop decode files of
        (processed_content, warnings) \<Rightarrow> (join [CHR 0x0A] processed_content, warnings))"

section \<open>query_deepseek\<close>

text \<open>The request body; the temperature is a float and is carried along uninterpreted.\<close>

record 't payload =
  model :: string
  payload_messages :: "message list"
  temperature :: 't

text \<open>
  What \<^verbatim>\<open>requests.post\<close> does: it raises, or it returns a response with a status code and
  the outcome of \<^verbatim>\<open>response.json()\<close>. Connection errors, timeouts, HTTP errors and the
  other exceptions of \<^verbatim>\<open>requests\<close> are \<open>RequestException\<close> with their class name.
\<close>

datatype http_result =
    PostRaises exn
  | Response int "exn + json"

text \<open>\<^verbatim>\<open>response_data.get("choices", [{}])[0].get("message", {}).get("content", "")\<close>\<close>

definition extract_content :: "json \<Rightarrow> exn + json" where
  "extract_content response_data =
     (case py_get response_data ''choices'' (JArr [JObj []]) of
        Inl e \<Rightarrow> Inl e
      | Inr choices \<Rightarrow>
          (case py_index0 choices of
             Inl e \<Rightarrow> Inl e
           | Inr choice \<Rightarrow>
               (case py_get choice ''message'' (JObj []) of
                  Inl e \<Rightarrow> Inl e
                | Inr msg \<Rightarrow> py_get msg ''content'' (JStr []))))"

text \<open>The \<^verbatim>\<open>try\<close> block: what it returns or raises, and the session state it leaves.\<close>

definition query_body ::
    "('t payload \<Rightarrow> http_result) \<Rightarrow> int \<Rightarrow> string \<Rightarrow> string \<Rightarrow> string \<Rightarrow> 't
       \<Rightarrow> session_state \<Rightarrow> (exn + json option) \<times> session_state" where
  "query_body post max_messages prompt system_prompt mdl temp st =
     (let payload = \<lparr>model = mdl,
                      payload_messages = fst (get_context max_messages system_prompt st)
                         @ [\<lparr>role = ''user'', content = JStr prompt\<rparr>],
                      temperature = temp\<rparr>
      in case post payload of
           PostRaises e \<Rightarrow> (Inl e, st)
         | Response status_code body \<Rightarrow>
             if 400 \<le> status_code \<and> status_code < 600 then (Inl (RequestException ''HTTPError''), st)
             else if status_code = 200 then
               (case body of
                  Inl e \<Rightarrow> (Inl e, st)
                | Inr response_data \<Rightarrow>
                    (case extract_content response_data of
                       Inl e \<Rightarrow> (Inl e, st)
                     | Inr assistant_response \<Rightarrow>
                         (case add_message max_messages ''user'' (JStr prompt) st of
                            (Inl e, ev, st1) \<Rightarrow> (Inl e, st1)
                          | (Inr u, ev, st1) \<Rightarrow>
                              (case add_message max_messages ''assistant'' assistant_response st1 of
                                 (Inl e, ev', st2) \<Rightarrow> (Inl e, st2)
                               | (Inr u', ev', st2) \<Rightarrow> (Inr (Some response_data), st2)))))
             else (Inr None, st))"

text \<open>
  \<^verbatim>\<open>query_deepseek\<close>: the API key is read from the session state before the \<^verbatim>\<open>try\<close>
  (\<^verbatim>\<open>KeyError\<close> when it is not there) and sent by \<open>post\<close>; a \<^verbatim>\<open>RequestException\<close> raised in
  the block is caught and \<^verbatim>\<open>None\<close> is returned; any other exception reaches the caller.
\<close>

definition query_deepseek ::
    "(string \<Rightarrow> 't payload \<Rightarrow> http_result) \<Rightarrow> string option \<Rightarrow> int \<Rightarrow> string \<Rightarrow> string
       \<Rightarrow> string \<Rightarrow> 't \<Rightarrow> session_state \<Rightarrow> (exn + json option) \<times> session_state" where
  "query_deepseek post api_key max_messages prompt system_prompt mdl temp st =
     (case api_key of
        None \<Rightarrow> (Inl KeyError, st)
      | Some key \<Rightarrow>
          (case query_body (post key) max_messages prompt system_prompt mdl temp st of
             (Inl (RequestException msg), st') \<Rightarrow> (Inr None, st')
           | (res, st') \<Rightarrow> (res, st')))"

section \<open>Properties of the conversation memory\<close>

lemma length_last_entries: "length (last_entries n xs) = min n (length xs)"
  by (simp add: last_entries_def)

lemma last_entries_rev: "last_entries n xs = rev (take n (rev xs))"
  by (simp add: last_entries_def rev_take)

lemma last_entries_absorb: "last_entries n (last_entries n xs @ ys) = last_entries n (xs @ ys)"
  by (simp add: last_entries_rev min_def)

lemma last_entries_all: "length xs \<le> n \<Longrightarrow> last_entries n xs = xs"
  by (simp add: last_entries_def)

lemma trim_removed_append: "trim mm fh = (r, ev, fh') \<Longrightarrow> ev @ fh' = fh"
proof (induction mm fh arbitrary: r ev fh' rule: trim.induct)
  case (1 mm fh)
  show ?case
  proof (cases "int (length fh) > mm")
    case False
    with "1.prems" show ?thesis by (simp add: trim.simps)
  next
    case True
    show ?thesis
    proof (cases fh)
      case Nil
      with True "1.prems" show ?thesis by (simp add: trim.simps)
    next
      case (Cons removed rest)
      show ?thesis
      proof (cases "py_slice_to 50 (content removed)")
        case (Inl e)
        with True Cons "1.prems" show ?thesis by (simp add: trim.simps)
      next
        case (Inr v)
        obtain r1 ev1 fh1 where t: "trim mm rest = (r1, ev1, fh1)"
          by (cases "trim mm rest") auto
        from "1.IH"[OF True Cons Inr t] have "ev1 @ fh1 = rest" .
        with True Cons Inr t "1.prems" show ?thesis by (auto simp: trim.simps[of mm "removed # rest"])
      qed
    qed
  qed
qed

lemma trim_no_op: "int (length fh) \<le> mm \<Longrightarrow> trim mm fh = (Inr (), [], fh)"
  by (simp add: trim.simps)

lemma trim_within: "length fh \<le> nat mm + 1 \<Longrightarrow> snd (snd (trim mm fh)) = last_entries (nat mm) fh"
proof (cases "int (length fh) > mm")
  case False
  then show ?thesis by (simp add: trim_no_op last_entries_all)
next
  case True
  assume b: "length fh \<le> nat mm + 1"
  show ?thesis
  proof (cases fh)
    case Nil
    with True show ?thesis by (simp add: trim.simps last_entries_def)
  next
    case (Cons removed rest)
    with True b have len: "length rest = nat mm" by auto
    have le: "last_entries (nat mm) fh = rest" using Cons len by (simp add: last_entries_def)
    have rest: "snd (snd (trim mm rest)) = rest"
    proof (cases "0 \<le> mm")
      case True
      with len have "int (length rest) \<le> mm" by simp
      then show ?thesis by (simp add: trim_no_op)
    next
      case False
      with len have "rest = []" by simp
      with False show ?thesis by (simp add: trim.simps)
    qed
    show ?thesis
    proof (cases "py_slice_to 50 (content removed)")
      case (Inl e)
      with True Cons le show ?thesis by (simp add: trim.simps)
    next
      case (Inr v)
      with True Cons le rest show ?thesis
        by (auto simp: trim.simps[of mm "removed # rest"] split: prod.splits)
    qed
  qed
qed



lemma trim_strings_return:
  "0 \<le> mm \<Longrightarrow> \<forall>m \<in> set fh. is_str (content m) \<Longrightarrow> fst (trim mm fh) = Inr ()"
proof (induction mm fh rule: trim.induct)
  case (1 mm fh)
  show ?case
  proof (cases "int (length fh) > mm")
    case False
    then show ?thesis by (simp add: trim.simps)
  next
    case True
    show ?thesis
    proof (cases fh)
      case Nil
      with True "1.prems" show ?thesis by simp
    next
      case (Cons removed rest)
      with "1.prems" obtain s where s: "content removed = JStr s"
        by (cases "content removed") auto
      then have sl: "py_slice_to 50 (content removed) = Inr (JStr (take 50 s))" by simp
      from "1.prems" Cons have "\<forall>m \<in> set rest. is_str (content m)" by simp
      from "1.IH"[OF True Cons sl "1.prems"(1) this] have "fst (trim mm rest) = Inr ()" .
      with True Cons sl show ?thesis
        by (auto simp: trim.simps[of mm "removed # rest"] split: prod.splits)
    qed
  qed
qed

lemma add_message_messages:
  "add_message mm r c st = (res, ev, st') \<Longrightarrow> messages st' = messages st @ [mk_message (r, c)]"
  by (auto simp: add_message_def mk_message_def Let_def split: prod.splits)

lemma add_message_removed:
  "add_message mm r c st = (res, ev, st') \<Longrightarrow>
     ev @ full_history st' = full_history st @ [mk_message (r, c)]"
  by (auto simp: add_message_def mk_message_def Let_def split: prod.splits dest: trim_removed_append)

lemma add_message_within:
  "length (full_history st) \<le> nat mm \<Longrightarrow> add_message mm r c st = (res, ev, st') \<Longrightarrow>
     full_history st' = last_entries (nat mm) (full_history st @ [mk_message (r, c)])"
  using trim_within[of "full_history st @ [mk_message (r, c)]" mm]
  by (auto simp: add_message_def mk_message_def Let_def split: prod.splits)


lemma add_messages_log:
  "add_messages mm cs st0 = (ress, evs, st) \<Longrightarrow>
     messages st = messages st0 @ map mk_message cs \<and>
     evs @ full_history st = full_history st0 @ map mk_message cs \<and>
     length ress = length cs"
proof (induction cs arbitrary: st0 ress evs st)
  case Nil
  then show ?case by simp
next
  case (Cons rc cs)
  obtain r c where rc: "rc = (r, c)" by (cases rc)
  obtain res ev st1 where a: "add_message mm r c st0 = (res, ev, st1)"
    by (cases "add_message mm r c st0") auto
  obtain ress1 evs1 st2 where b: "add_messages mm cs st1 = (ress1, evs1, st2)"
    by (cases "add_messages mm cs st1") auto
  from Cons.prems rc a b have eq: "ress = res # ress1" "evs = ev @ evs1" "st = st2" by auto
  from Cons.IH[OF b] add_message_messages[OF a] add_message_removed[OF a] eq
  show ?case by (simp add: rc)
qed

lemma add_messages_window:
  "length (full_history st0) \<le> nat mm \<Longrightarrow> add_messages mm cs st0 = (ress, evs, st) \<Longrightarrow>
     full_history st = last_entries (nat mm) (full_history st0 @ map mk_message cs)"
proof (induction cs arbitrary: st0 ress evs st)
  case Nil
  then show ?case by (simp add: last_entries_all)
next
  case (Cons rc cs)
  obtain r c where rc: "rc = (r, c)" by (cases rc)
  obtain res ev st1 where a: "add_message mm r c st0 = (res, ev, st1)"
    by (cases "add_message mm r c st0") auto
  obtain ress1 evs1 st2 where b: "add_messages mm cs st1 = (ress1, evs1, st2)"
    by (cases "add_messages mm cs st1") auto
  from Cons.prems rc a b have eq: "st = st2" by auto
  have w: "full_history st1 = last_entries (nat mm) (full_history st0 @ [mk_message (r, c)])"
    using add_message_within[OF Cons.prems(1) a] .
  then have "length (full_history st1) \<le> nat mm" by (simp add: length_last_entries)
  from Cons.IH[OF this b] have "full_history st2 = last_entries (nat mm) (full_history st1 @ map mk_message cs)" .
  with w eq show ?case by (simp add: rc last_entries_absorb)
qed


lemma add_message_strings_return:
  assumes "0 \<le> mm" and "\<forall>m \<in> set (full_history st). is_str (content m)" and "is_str c"
    and "add_message mm r c st = (res, ev, st')"
  shows "res = Inr () \<and> (\<forall>m \<in> set (full_history st'). is_str (content m))"
proof -
  let ?m = "\<lparr>role = r, content = c\<rparr>"
  from assms(2,3) have all: "\<forall>m \<in> set (full_history st @ [?m]). is_str (content m)" by simp
  from trim_strings_return[OF assms(1) all] assms(4) have "res = Inr ()"
    by (auto simp: add_message_def Let_def split: prod.splits)
  moreover from add_message_removed[OF assms(4)]
  have "set (full_history st') \<subseteq> set (full_history st @ [?m])"
    by (metis mk_message_def fst_conv snd_conv set_append Un_upper2)
  with all have "\<forall>m \<in> set (full_history st'). is_str (content m)" by blast
  ultimately show ?thesis by simp
qed

lemma add_messages_strings_return:
  "0 \<le> mm \<Longrightarrow> \<forall>m \<in> set (full_history st0). is_str (content m) \<Longrightarrow>
   \<forall>rc \<in> set cs. is_str (snd rc) \<Longrightarrow> add_messages mm cs st0 = (ress, evs, st) \<Longrightarrow>
   \<forall>res \<in> set ress. res = Inr ()"
proof (induction cs arbitrary: st0 ress evs st)
  case Nil
  then show ?case by simp
next
  case (Cons rc cs)
  obtain r c where rc: "rc = (r, c)" by (cases rc)
  obtain res ev st1 where a: "add_message mm r c st0 = (res, ev, st1)"
    by (cases "add_message mm r c st0") auto
  obtain ress1 evs1 st2 where b: "add_messages mm cs st1 = (ress1, evs1, st2)"
    by (cases "add_messages mm cs st1") auto
  from Cons.prems rc a b have eq: "ress = res # ress1" by auto
  from Cons.prems(3) rc have c: "is_str c" and cs: "\<forall>rc \<in> set cs. is_str (snd rc)" by auto
  from add_message_strings_return[OF Cons.prems(1,2) c a]
  have r: "res = Inr ()" and h: "\<forall>m \<in> set (full_history st1). is_str (content m)" by auto
  from Cons.IH[OF Cons.prems(1) h cs b] r eq show ?case by simp
qed

lemma initialize_session_None [simp]:
  "initialize_session None = \<lparr>messages = [], full_history = []\<rparr>"
  by (simp add: initialize_session_def)

lemma py_slice_from_last_entries:
  "0 < n \<Longrightarrow> py_slice_from (- n) xs = last_entries (nat n) xs"
  by (auto simp: py_slice_from_def last_entries_def intro!: arg_cong2[where f = drop])


text \<open>
  C1. For every sequence of \<^verbatim>\<open>add_message\<close> calls on a ChatMemory with a bound
  \<open>max_messages\<close> (a maximum length, so not negative) that starts on a fresh session, the
  context log \<open>full_history\<close> has at most \<open>max_messages\<close> entries after the calls and the
  display log \<open>messages\<close> has as many entries as calls were made; when every content is a
  string, no call raises. The sequence is arbitrary, so this holds after every call of a
  longer sequence.
\<close>

theorem add_messages_lengths:
  assumes "0 \<le> max_messages"
    and "add_messages max_messages cs (initialize_session None) = (ress, evs, st)"
  shows "int (length (full_history st)) \<le> max_messages
       \<and> length (messages st) = length cs
       \<and> ((\<forall>rc \<in> set cs. is_str (snd rc)) \<longrightarrow> (\<forall>res \<in> set ress. res = Inr ()))"
proof -
  let ?st0 = "initialize_session None"
  have w: "full_history st = last_entries (nat max_messages) (full_history ?st0 @ map mk_message cs)"
    using add_messages_window[OF _ assms(2)] by simp
  have "length (full_history st) \<le> nat max_messages"
    unfolding w by (simp add: length_last_entries)
  with assms(1) have bound: "int (length (full_history st)) \<le> max_messages" by simp
  from add_messages_log[OF assms(2)] have len: "length (messages st) = length cs" by simp
  have ret: "(\<forall>rc \<in> set cs. is_str (snd rc)) \<longrightarrow> (\<forall>res \<in> set ress. res = Inr ())"
  proof
    assume "\<forall>rc \<in> set cs. is_str (snd rc)"
    from add_messages_strings_return[OF assms(1) _ this assms(2)]
    show "\<forall>res \<in> set ress. res = Inr ()" by simp
  qed
  from bound len ret show ?thesis by simp
qed

theorem add_messages_lengths_witness:
  "(0::int) \<le> 1
   \<and> add_messages 1 [(''user'', JStr ''a''), (''assistant'', JStr ''b'')] (initialize_session None)
       = ([Inr (), Inr ()], [\<lparr>role = ''user'', content = JStr ''a''\<rparr>],
          \<lparr>messages = [\<lparr>role = ''user'', content = JStr ''a''\<rparr>,
                        \<lparr>role = ''assistant'', content = JStr ''b''\<rparr>],
            full_history = [\<lparr>role = ''assistant'', content = JStr ''b''\<rparr>]\<rparr>)
   \<and> int (length (full_history
         \<lparr>messages = [\<lparr>role = ''user'', content = JStr ''a''\<rparr>,
                       \<lparr>role = ''assistant'', content = JStr ''b''\<rparr>],
           full_history = [\<lparr>role = ''assistant'', content = JStr ''b''\<rparr>]\<rparr>)) \<le> 1
   \<and> length (messages
         \<lparr>messages = [\<lparr>role = ''user'', content = JStr ''a''\<rparr>,
                       \<lparr>role = ''assistant'', content = JStr ''b''\<rparr>],
           full_history = [\<lparr>role = ''assistant'', content = JStr ''b''\<rparr>]\<rparr>)
       = length [(''user'', JStr ''a''), (''assistant'', JStr ''b'')]"
proof -
  have h0: "(0::int) \<le> 1" by simp
  have h: "add_messages 1 [(''user'', JStr ''a''), (''assistant'', JStr ''b'')] (initialize_session None)
       = ([Inr (), Inr ()], [\<lparr>role = ''user'', content = JStr ''a''\<rparr>],
          \<lparr>messages = [\<lparr>role = ''user'', content = JStr ''a''\<rparr>,
                        \<lparr>role = ''assistant'', content = JStr ''b''\<rparr>],
            full_history = [\<lparr>role = ''assistant'', content = JStr ''b''\<rparr>]\<rparr>)"
    by (simp add: add_message_def trim.simps Let_def)
  from add_messages_lengths[OF h0 h] h show ?thesis by simp
qed

text \<open>
  C6. Eviction is first in, first out: after any sequence of \<^verbatim>\<open>add_message\<close> calls on a
  fresh ChatMemory, the messages removed so far followed by the context log are exactly
  the appended messages in the order of the calls, so every retained message was appended
  after every evicted one; the context log is the last \<open>max_messages\<close> appended messages
  (none for a bound below one), in that order.
\<close>

theorem add_messages_fifo:
  "case add_messages max_messages cs (initialize_session None) of
     (ress, evs, st) \<Rightarrow>
       evs @ full_history st = map mk_message cs
     \<and> full_history st = last_entries (nat max_messages) (map mk_message cs)
     \<and> messages st = map mk_message cs"
proof -
  obtain ress evs st where r: "add_messages max_messages cs (initialize_session None) = (ress, evs, st)"
    by (cases "add_messages max_messages cs (initialize_session None)") auto
  from add_messages_log[OF r] add_messages_window[OF _ r] r show ?thesis by simp
qed

text \<open>
  C7. For a ChatMemory constructed with \<open>max_messages = 0\<close> on a fresh session, after any
  sequence of \<^verbatim>\<open>add_message\<close> calls \<^verbatim>\<open>get_context(p)\<close> returns the system message alone.
\<close>

theorem get_context_zero_bound:
  "case add_messages 0 cs (initialize_session None) of
     (ress, evs, st) \<Rightarrow> get_context 0 p st = ([\<lparr>role = ''system'', content = JStr p\<rparr>], st)"
proof -
  obtain ress evs st where r: "add_messages 0 cs (initialize_session None) = (ress, evs, st)"
    by (cases "add_messages 0 cs (initialize_session None)") auto
  from add_messages_window[OF _ r] have "full_history st = []"
    by (simp add: last_entries_def)
  with r show ?thesis by (simp add: get_context_def py_slice_from_def)
qed

text \<open>
  C5. For every prompt \<open>p\<close> and every log state of the memory, that is the state after any
  sequence of \<^verbatim>\<open>add_message\<close> calls on a fresh session (to which \<^verbatim>\<open>clear_memory\<close> returns),
  the empty log included, \<^verbatim>\<open>get_context(p)\<close> returns the system message of content \<open>p\<close>
  followed by the last \<open>max_messages\<close> entries of the context log, and leaves both logs as
  they are. On an arbitrary session state the call still mutates nothing and its result
  still begins with that system message, and the equation holds whenever \<open>max_messages\<close>
  is positive or the context log is within the bound.
\<close>

theorem get_context_window:
  "snd (get_context max_messages p st) = st
   \<and> hd (fst (get_context max_messages p st)) = \<lparr>role = ''system'', content = JStr p\<rparr>
   \<and> (0 < max_messages \<or> int (length (full_history st)) \<le> max_messages \<longrightarrow>
        fst (get_context max_messages p st)
          = \<lparr>role = ''system'', content = JStr p\<rparr>
              # last_entries (nat max_messages) (full_history st))
   \<and> (case add_messages max_messages cs (initialize_session None) of
        (ress, evs, st') \<Rightarrow>
          get_context max_messages p st'
            = (\<lparr>role = ''system'', content = JStr p\<rparr>
                 # last_entries (nat max_messages) (full_history st'), st'))
   \<and> get_context max_messages p (initialize_session None)
        = ([\<lparr>role = ''system'', content = JStr p\<rparr>], initialize_session None)
   \<and> clear_memory st = initialize_session None"
proof -
  have slice: "py_slice_from (- max_messages) xs = last_entries (nat max_messages) xs"
    if "0 < max_messages \<or> int (length xs) \<le> max_messages" for xs :: "message list"
  proof (cases "0 < max_messages")
    case True
    then show ?thesis by (rule py_slice_from_last_entries)
  next
    case False
    with that have "int (length xs) \<le> 0" by linarith
    then have "xs = []" by simp
    then show ?thesis by (simp add: py_slice_from_def last_entries_def)
  qed
  have any: "0 < max_messages \<or> int (length (full_history st)) \<le> max_messages \<longrightarrow>
        fst (get_context max_messages p st)
          = \<lparr>role = ''system'', content = JStr p\<rparr>
              # last_entries (nat max_messages) (full_history st)"
    using slice by (simp add: get_context_def)
  obtain ress evs st' where r: "add_messages max_messages cs (initialize_session None) = (ress, evs, st')"
    by (cases "add_messages max_messages cs (initialize_session None)") auto
  from add_messages_window[OF _ r]
  have w: "full_history st' = last_entries (nat max_messages) (map mk_message cs)" by simp
  have reach: "py_slice_from (- max_messages) (full_history st')
      = last_entries (nat max_messages) (full_history st')"
  proof (cases "0 < max_messages")
    case True
    then show ?thesis by (rule py_slice_from_last_entries)
  next
    case False
    with w have "full_history st' = []" by (simp add: last_entries_def)
    then show ?thesis by (simp add: py_slice_from_def last_entries_def)
  qed
  have reached: "get_context max_messages p st'
            = (\<lparr>role = ''system'', content = JStr p\<rparr>
                 # last_entries (nat max_messages) (full_history st'), st')"
    using reach by (simp add: get_context_def)
  have fresh: "get_context max_messages p (initialize_session None)
        = ([\<lparr>role = ''system'', content = JStr p\<rparr>], initialize_session None)"
    by (simp add: get_context_def py_slice_from_def)
  have clear: "clear_memory st = initialize_session None"
    by (simp add: clear_memory_def)
  have base: "snd (get_context max_messages p st) = st
      \<and> hd (fst (get_context max_messages p st)) = \<lparr>role = ''system'', content = JStr p\<rparr>"
    by (simp add: get_context_def)
  from base any reached fresh clear r show ?thesis by simp
qed

theorem get_context_window_witness:
  "(0 < (2::int) \<or> int (length (full_history \<lparr>messages = [], full_history =
        [\<lparr>role = ''user'', content = JStr ''a''\<rparr>, \<lparr>role = ''assistant'', content = JStr ''b''\<rparr>,
         \<lparr>role = ''user'', content = JStr ''c''\<rparr>]\<rparr>)) \<le> 2)
   \<and> fst (get_context 2 ''p'' \<lparr>messages = [], full_history =
        [\<lparr>role = ''user'', content = JStr ''a''\<rparr>, \<lparr>role = ''assistant'', content = JStr ''b''\<rparr>,
         \<lparr>role = ''user'', content = JStr ''c''\<rparr>]\<rparr>)
      = [\<lparr>role = ''system'', content = JStr ''p''\<rparr>,
         \<lparr>role = ''assistant'', content = JStr ''b''\<rparr>, \<lparr>role = ''user'', content = JStr ''c''\<rparr>]"
  using get_context_window[where max_messages = 2 and p = "''p''" and st = "\<lparr>messages = [], full_history =
        [\<lparr>role = ''user'', content = JStr ''a''\<rparr>, \<lparr>role = ''assistant'', content = JStr ''b''\<rparr>,
         \<lparr>role = ''user'', content = JStr ''c''\<rparr>]\<rparr>", THEN conjunct2, THEN conjunct2, THEN conjunct1]
  by (simp add: last_entries_def)

section \<open>Properties of the attachment snippets\<close>

lemma extract_pages_returning:
  "extract_pages (map Inr ts) = Inr (map page_text ts)"
  by (induction ts) auto

lemma extract_pages_raising:
  "extract_pages (map Inr ts @ Inl e # ps) = Inl e"
  by (induction ts) auto

lemma process_file_plain:
  "content_type file \<noteq> ''application/pdf'' \<Longrightarrow> read file = Inr bytes \<Longrightarrow>
     process_file decode file
       = Inr (''FILE_CONTENT:'' @ name file @ '': '' @ take MAX_FILE_CONTENT (decode bytes) @ ''...'')"
  by (simp add: process_file_def)

lemma process_file_pdf:
  "content_type file = ''application/pdf'' \<Longrightarrow> pdf_pages file = Inr (map Inr ts) \<Longrightarrow>
     process_file decode file
       = Inr (''PDF_CONTENT:'' @ name file @ '': ''
                @ take MAX_FILE_CONTENT (join '' '' (map page_text ts)) @ ''...'')"
  by (simp add: process_file_def extract_pages_returning)

lemma process_file_shape:
  assumes "process_file decode file = Inr snippet"
  shows "\<exists>kind text. (kind = ''FILE_CONTENT:'' \<or> kind = ''PDF_CONTENT:'')
           \<and> length text \<le> MAX_FILE_CONTENT
           \<and> snippet = kind @ name file @ '': '' @ text @ ''...''"
proof (cases "content_type file = ''application/pdf''")
  case True
  with assms obtain texts where
    "snippet = ''PDF_CONTENT:'' @ name file @ '': '' @ take MAX_FILE_CONTENT (join '' '' texts) @ ''...''"
    by (auto simp: process_file_def split: sum.splits)
  moreover have "length (take MAX_FILE_CONTENT (join '' '' texts)) \<le> MAX_FILE_CONTENT" by simp
  ultimately show ?thesis by blast
next
  case False
  with assms obtain bytes where
    "snippet = ''FILE_CONTENT:'' @ name file @ '': '' @ take MAX_FILE_CONTENT (decode bytes) @ ''...''"
    by (auto simp: process_file_def split: sum.splits)
  moreover have "length (take MAX_FILE_CONTENT (decode bytes)) \<le> MAX_FILE_CONTENT" by simp
  ultimately show ?thesis by blast
qed

lemma process_loop_append:
  "process_loop decode (xs @ ys)
     = (fst (process_loop decode xs) @ fst (process_loop decode ys),
        snd (process_loop decode xs) @ snd (process_loop decode ys))"
  by (induction xs) (auto split: prod.splits sum.splits)

lemma process_loop_failed:
  "process_file decode file = Inl e \<Longrightarrow>
     process_loop decode (file # files)
       = (fst (process_loop decode files), (name file, e) # snd (process_loop decode files))"
  by (auto split: prod.splits)

lemma process_loop_snippet:
  "process_file decode file = Inr snippet \<Longrightarrow>
     process_loop decode (file # files)
       = (snippet # fst (process_loop decode files), snd (process_loop decode files))"
  by (auto split: prod.splits)


text \<open>
  C8. A single plain-text file yields the snippet \<^verbatim>\<open>"FILE_CONTENT:" + name + ": "\<close>, then the
  first \<open>MAX_FILE_CONTENT\<close> (1000) characters of the decoded content, then \<^verbatim>\<open>"..."\<close>, and
  no warning. The file \<^verbatim>\<open>a.txt\<close> with the bytes of \<^verbatim>\<open>hello\<close>, which decode to themselves,
  gives \<^verbatim>\<open>"FILE_CONTENT:a.txt: hello..."\<close>. In every snippet the text between the name and
  the ellipsis has at most \<open>MAX_FILE_CONTENT\<close> characters.
\<close>

theorem plain_file_snippet:
  "MAX_FILE_CONTENT = 1000
   \<and> (content_type file \<noteq> ''application/pdf'' \<and> read file = Inr bytes \<longrightarrow>
        process_uploaded_files decode [file]
          = (''FILE_CONTENT:'' @ name file @ '': '' @ take MAX_FILE_CONTENT (decode bytes) @ ''...'',
             []))
   \<and> (decode [104, 101, 108, 108, 111] = ''hello'' \<longrightarrow>
        fst (process_uploaded_files decode
               [\<lparr>name = ''a.txt'', content_type = ''plain'',
                 read = Inr [104, 101, 108, 108, 111], pdf_pages = pages\<rparr>])
          = ''FILE_CONTENT:a.txt: hello...'')
   \<and> (process_file decode file = Inr snippet \<longrightarrow>
        (\<exists>kind text. (kind = ''FILE_CONTENT:'' \<or> kind = ''PDF_CONTENT:'')
           \<and> length text \<le> MAX_FILE_CONTENT
           \<and> snippet = kind @ name file @ '': '' @ text @ ''...''))"
proof -
  have one: "process_uploaded_files decode [f] = (s, [])" if "process_file decode f = Inr s" for f s
    using that by (simp add: process_uploaded_files_def)
  have a: "content_type file \<noteq> ''application/pdf'' \<and> read file = Inr bytes \<longrightarrow>
        process_uploaded_files decode [file]
          = (''FILE_CONTENT:'' @ name file @ '': '' @ take MAX_FILE_CONTENT (decode bytes) @ ''...'',
             [])"
    using one process_file_plain by blast
  have b: "decode [104, 101, 108, 108, 111] = ''hello'' \<longrightarrow>
        fst (process_uploaded_files decode
               [\<lparr>name = ''a.txt'', content_type = ''plain'',
                 read = Inr [104, 101, 108, 108, 111], pdf_pages = pages\<rparr>])
          = ''FILE_CONTENT:a.txt: hello...''"
    by (simp add: process_uploaded_files_def process_file_def MAX_FILE_CONTENT_def)
  have c: "process_file decode file = Inr snippet \<longrightarrow>
        (\<exists>kind text. (kind = ''FILE_CONTENT:'' \<or> kind = ''PDF_CONTENT:'')
           \<and> length text \<le> MAX_FILE_CONTENT
           \<and> snippet = kind @ name file @ '': '' @ text @ ''...'')"
    using process_file_shape by blast
  from a b c show ?thesis by (simp add: MAX_FILE_CONTENT_def)
qed

theorem plain_file_snippet_witness:
  "content_type \<lparr>name = ''a.txt'', content_type = ''plain'',
                 read = Inr [104, 101, 108, 108, 111], pdf_pages = Inl (OtherException ''not a PDF'')\<rparr>
     \<noteq> ''application/pdf''
   \<and> map (\<lambda>b. char_of (unat b)) [104, 101, 108, 108, 111 :: byte] = ''hello''
   \<and> process_file (map (\<lambda>b. char_of (unat b)))
        \<lparr>name = ''a.txt'', content_type = ''plain'',
          read = Inr [104, 101, 108, 108, 111], pdf_pages = Inl (OtherException ''not a PDF'')\<rparr>
       = Inr ''FILE_CONTENT:a.txt: hello...''
   \<and> process_uploaded_files (map (\<lambda>b. char_of (unat b)))
        [\<lparr>name = ''a.txt'', content_type = ''plain'',
          read = Inr [104, 101, 108, 108, 111], pdf_pages = Inl (OtherException ''not a PDF'')\<rparr>]
       = (''FILE_CONTENT:a.txt: hello...'', [])"
proof -
  let ?d = "map (\<lambda>b::byte. char_of (unat b))"
  let ?f = "\<lparr>name = ''a.txt'', content_type = ''plain'',
             read = Inr [104, 101, 108, 108, 111 :: byte],
             pdf_pages = Inl (OtherException ''not a PDF'')\<rparr>"
  have d: "?d [104, 101, 108, 108, 111] = ''hello''" by code_simp
  have p: "process_file ?d ?f = Inr ''FILE_CONTENT:a.txt: hello...''"
    using d by (simp add: process_file_def MAX_FILE_CONTENT_def)
  from plain_file_snippet[of ?f "[104, 101, 108, 108, 111]" ?d "Inl (OtherException ''not a PDF'')"
      "''FILE_CONTENT:a.txt: hello...''"] d p
  show ?thesis by (simp add: MAX_FILE_CONTENT_def)
qed


text \<open>
  C9 (as amended). For every PDF file whose reader opens and whose pages all return from
  \<^verbatim>\<open>extract_text\<close>, ingestion yields the snippet of the file: a page that returns no text
  contributes the empty string, and the page texts are joined by single spaces. When the
  file fails instead, because one of its pages raises or because the reader does, it
  contributes no snippet but a warning, and the files before and after it in the batch
  contribute exactly what they contribute without it.
\<close>

theorem pdf_file_snippet:
  "(content_type file = ''application/pdf'' \<and> pdf_pages file = Inr (map Inr ts) \<longrightarrow>
      process_file decode file
        = Inr (''PDF_CONTENT:'' @ name file @ '': ''
                 @ take MAX_FILE_CONTENT (join '' '' (map page_text ts)) @ ''...''))
   \<and> page_text None = []
   \<and> (content_type bad = ''application/pdf'' \<and> pdf_pages bad = Inr (map Inr ts' @ Inl e # ps) \<longrightarrow>
        process_file decode bad = Inl e)
   \<and> (process_file decode bad = Inl e \<longrightarrow>
        process_loop decode (before @ bad # after)
          = (fst (process_loop decode before) @ fst (process_loop decode after),
             snd (process_loop decode before) @ (name bad, e) # snd (process_loop decode after)))
   \<and> (content_type broken = ''application/pdf'' \<and> pdf_pages broken = Inl e' \<longrightarrow>
        process_file decode broken = Inl e'
        \<and> process_uploaded_files decode [broken] = ([], [(name broken, e')])
        \<and> process_loop decode (before' @ broken # after')
          = (fst (process_loop decode before') @ fst (process_loop decode after'),
             snd (process_loop decode before') @ (name broken, e') # snd (process_loop decode after')))"
proof -
  have failed: "process_loop decode (xs @ f # ys)
          = (fst (process_loop decode xs) @ fst (process_loop decode ys),
             snd (process_loop decode xs) @ (name f, x) # snd (process_loop decode ys))"
    if "process_file decode f = Inl x" for f x xs ys
    using that by (auto simp: process_loop_append[of decode xs "f # ys"] split: prod.splits)
  have a: "content_type file = ''application/pdf'' \<and> pdf_pages file = Inr (map Inr ts) \<longrightarrow>
      process_file decode file
        = Inr (''PDF_CONTENT:'' @ name file @ '': ''
                 @ take MAX_FILE_CONTENT (join '' '' (map page_text ts)) @ ''...'')"
    using process_file_pdf by blast
  have b: "page_text None = []" by (simp add: page_text_def)
  have c: "content_type bad = ''application/pdf'' \<and> pdf_pages bad = Inr (map Inr ts' @ Inl e # ps) \<longrightarrow>
        process_file decode bad = Inl e"
    by (simp add: process_file_def extract_pages_raising)
  have d: "process_file decode bad = Inl e \<longrightarrow>
        process_loop decode (before @ bad # after)
          = (fst (process_loop decode before) @ fst (process_loop decode after),
             snd (process_loop decode before) @ (name bad, e) # snd (process_loop decode after))"
    using failed by blast
  have e: "content_type broken = ''application/pdf'' \<and> pdf_pages broken = Inl e' \<longrightarrow>
        process_file decode broken = Inl e'
        \<and> process_uploaded_files decode [broken] = ([], [(name broken, e')])
        \<and> process_loop decode (before' @ broken # after')
          = (fst (process_loop decode before') @ fst (process_loop decode after'),
             snd (process_loop decode before') @ (name broken, e') # snd (process_loop decode after'))"
  proof
    assume h: "content_type broken = ''application/pdf'' \<and> pdf_pages broken = Inl e'"
    then have f: "process_file decode broken = Inl e'" by (simp add: process_file_def)
    then have u: "process_uploaded_files decode [broken] = ([], [(name broken, e')])"
      by (simp add: process_uploaded_files_def)
    from f u failed[OF f] show "process_file decode broken = Inl e'
        \<and> process_uploaded_files decode [broken] = ([], [(name broken, e')])
        \<and> process_loop decode (before' @ broken # after')
          = (fst (process_loop decode before') @ fst (process_loop decode after'),
             snd (process_loop decode before') @ (name broken, e') # snd (process_loop decode after'))"
      by blast
  qed
  from a b c d e show ?thesis by blast
qed

theorem pdf_file_snippet_witness:
  "content_type \<lparr>name = ''d.pdf'', content_type = ''application/pdf'', read = Inr [],
                 pdf_pages = Inr (map Inr [Some ''one'', None, Some ''three''])\<rparr>
     = ''application/pdf''
   \<and> process_file (map (\<lambda>b. char_of (unat b)))
        \<lparr>name = ''d.pdf'', content_type = ''application/pdf'', read = Inr [],
          pdf_pages = Inr (map Inr [Some ''one'', None, Some ''three''])\<rparr>
       = Inr ''PDF_CONTENT:d.pdf: one  three...''
   \<and> process_file (map (\<lambda>b. char_of (unat b)))
        \<lparr>name = ''e.pdf'', content_type = ''application/pdf'', read = Inr [],
          pdf_pages = Inr (map Inr [Some ''one''] @ [Inl (OtherException ''unreadable page'')])\<rparr>
       = Inl (OtherException ''unreadable page'')
   \<and> process_loop (map (\<lambda>b. char_of (unat b)))
        ([\<lparr>name = ''d.pdf'', content_type = ''application/pdf'', read = Inr [],
           pdf_pages = Inr (map Inr [Some ''one'', None, Some ''three''])\<rparr>]
         @ \<lparr>name = ''e.pdf'', content_type = ''application/pdf'', read = Inr [],
             pdf_pages = Inr (map Inr [Some ''one''] @ [Inl (OtherException ''unreadable page'')])\<rparr>
         # [\<lparr>name = ''d.pdf'', content_type = ''application/pdf'', read = Inr [],
             pdf_pages = Inr (map Inr [Some ''one'', None, Some ''three''])\<rparr>])
       = ([''PDF_CONTENT:d.pdf: one  three...'', ''PDF_CONTENT:d.pdf: one  three...''],
          [(''e.pdf'', OtherException ''unreadable page'')])
   \<and> process_uploaded_files (map (\<lambda>b. char_of (unat b)))
        [\<lparr>name = ''f.pdf'', content_type = ''application/pdf'', read = Inr [],
          pdf_pages = Inl (OtherException ''not a PDF'')\<rparr>]
       = ([], [(''f.pdf'', OtherException ''not a PDF'')])
   \<and> process_loop (map (\<lambda>b. char_of (unat b)))
        ([\<lparr>name = ''d.pdf'', content_type = ''application/pdf'', read = Inr [],
           pdf_pages = Inr (map Inr [Some ''one'', None, Some ''three''])\<rparr>]
         @ \<lparr>name = ''f.pdf'', content_type = ''application/pdf'', read = Inr [],
             pdf_pages = Inl (OtherException ''not a PDF'')\<rparr>
         # [\<lparr>name = ''d.pdf'', content_type = ''application/pdf'', read = Inr [],
             pdf_pages = Inr (map Inr [Some ''one'', None, Some ''three''])\<rparr>])
       = ([''PDF_CONTENT:d.pdf: one  three...'', ''PDF_CONTENT:d.pdf: one  three...''],
          [(''f.pdf'', OtherException ''not a PDF'')])"
proof -
  let ?d = "map (\<lambda>b::byte. char_of (unat b))"
  let ?f = "\<lparr>name = ''d.pdf'', content_type = ''application/pdf'', read = Inr ([]::byte list),
             pdf_pages = Inr (map Inr [Some ''one'', None, Some ''three''])\<rparr>"
  let ?b = "\<lparr>name = ''e.pdf'', content_type = ''application/pdf'', read = Inr ([]::byte list),
             pdf_pages = Inr (map Inr [Some ''one''] @ [Inl (OtherException ''unreadable page'')])\<rparr>"
  let ?r = "\<lparr>name = ''f.pdf'', content_type = ''application/pdf'', read = Inr ([]::byte list),
             pdf_pages = Inl (OtherException ''not a PDF'')\<rparr>"
  have f: "process_file ?d ?f = Inr ''PDF_CONTENT:d.pdf: one  three...''"
    by (simp add: process_file_def page_text_def MAX_FILE_CONTENT_def)
  then have l: "process_loop ?d [?f] = ([''PDF_CONTENT:d.pdf: one  three...''], [])"
    by simp
  from pdf_file_snippet[of ?f "[Some ''one'', None, Some ''three'']" ?d ?b "[Some ''one'']"
      "OtherException ''unreadable page''" "[]" "[?f]" "[?f]"
      ?r "OtherException ''not a PDF''" "[?f]" "[?f]"] f l
  show ?thesis by simp
qed

text \<open>
  C9 as stated fails when the text of a page cannot be extracted because
  \<^verbatim>\<open>extract_text\<close> raises: the exception leaves the \<^verbatim>\<open>join\<close>, the \<^verbatim>\<open>except\<close> clause of the
  file catches it, and the file yields a warning and no snippet.
\<close>

theorem pdf_page_raises_counterexample:
  "process_uploaded_files (map (\<lambda>b. char_of (unat b)))
     [\<lparr>name = ''d.pdf'', content_type = ''application/pdf'', read = Inr [],
       pdf_pages = Inr [Inr (Some ''one''), Inl (OtherException ''unreadable page'')]\<rparr>]
     = ([], [(''d.pdf'', OtherException ''unreadable page'')])"
  by (simp add: process_uploaded_files_def process_file_def)

text \<open>
  C10. Every snippet that is produced, for a plain file or a PDF, ends with \<^verbatim>\<open>"..."\<close>. The
  ellipsis is there whether or not text was cut: two files of the same kind and name whose
  texts agree on their first \<open>MAX_FILE_CONTENT\<close> characters, such as a long text and its
  untruncated first \<open>MAX_FILE_CONTENT\<close> characters, yield the same snippet.
\<close>

theorem snippet_ends_with_ellipsis:
  "(process_file decode file = Inr snippet \<longrightarrow> (\<exists>body. snippet = body @ ''...''))
   \<and> (content_type f1 \<noteq> ''application/pdf'' \<and> content_type f2 \<noteq> ''application/pdf''
        \<and> name f1 = name f2 \<and> read f1 = Inr b1 \<and> read f2 = Inr b2
        \<and> decode b2 = take MAX_FILE_CONTENT (decode b1) \<longrightarrow>
      process_file decode f1 = process_file decode f2
      \<and> (\<exists>snippet. process_file decode f1 = Inr snippet))
   \<and> (content_type g1 = ''application/pdf'' \<and> content_type g2 = ''application/pdf''
        \<and> name g1 = name g2 \<and> pdf_pages g1 = Inr (map Inr ts1) \<and> pdf_pages g2 = Inr (map Inr ts2)
        \<and> join '' '' (map page_text ts2) = take MAX_FILE_CONTENT (join '' '' (map page_text ts1)) \<longrightarrow>
      process_file decode g1 = process_file decode g2
      \<and> (\<exists>snippet. process_file decode g1 = Inr snippet))"
proof -
  have a: "process_file decode file = Inr snippet \<longrightarrow> (\<exists>body. snippet = body @ ''...'')"
  proof
    assume "process_file decode file = Inr snippet"
    from process_file_shape[OF this] obtain k t
      where "snippet = (k @ name file @ '': '' @ t) @ ''...''" by auto
    then show "\<exists>body. snippet = body @ ''...''" by blast
  qed
  have b: "content_type f1 \<noteq> ''application/pdf'' \<and> content_type f2 \<noteq> ''application/pdf''
        \<and> name f1 = name f2 \<and> read f1 = Inr b1 \<and> read f2 = Inr b2
        \<and> decode b2 = take MAX_FILE_CONTENT (decode b1) \<longrightarrow>
      process_file decode f1 = process_file decode f2
      \<and> (\<exists>snippet. process_file decode f1 = Inr snippet)"
    by (simp add: process_file_plain)
  have c: "content_type g1 = ''application/pdf'' \<and> content_type g2 = ''application/pdf''
        \<and> name g1 = name g2 \<and> pdf_pages g1 = Inr (map Inr ts1) \<and> pdf_pages g2 = Inr (map Inr ts2)
        \<and> join '' '' (map page_text ts2) = take MAX_FILE_CONTENT (join '' '' (map page_text ts1)) \<longrightarrow>
      process_file decode g1 = process_file decode g2
      \<and> (\<exists>snippet. process_file decode g1 = Inr snippet)"
    by (simp add: process_file_pdf)
  from a b c show ?thesis by blast
qed


theorem snippet_ends_with_ellipsis_witness:
  "content_type \<lparr>name = ''n'', content_type = ''text/plain'',
                 read = Inr (replicate 1001 0), pdf_pages = Inr []\<rparr> \<noteq> ''application/pdf''
   \<and> (\<lambda>bs::byte list. replicate (length bs) CHR ''a'') (replicate 1000 0)
       = take MAX_FILE_CONTENT ((\<lambda>bs::byte list. replicate (length bs) CHR ''a'') (replicate 1001 0))
   \<and> process_file (\<lambda>bs. replicate (length bs) CHR ''a'')
        \<lparr>name = ''n'', content_type = ''text/plain'', read = Inr (replicate 1001 0), pdf_pages = Inr []\<rparr>
       = Inr (''FILE_CONTENT:n: '' @ replicate 1000 CHR ''a'' @ ''...'')
   \<and> process_file (\<lambda>bs. replicate (length bs) CHR ''a'')
        \<lparr>name = ''n'', content_type = ''text/plain'', read = Inr (replicate 1001 0), pdf_pages = Inr []\<rparr>
       = process_file (\<lambda>bs. replicate (length bs) CHR ''a'')
           \<lparr>name = ''n'', content_type = ''text/plain'', read = Inr (replicate 1000 0), pdf_pages = Inr []\<rparr>
   \<and> join '' '' (map page_text [Some (replicate 1000 CHR ''b'')])
       = take MAX_FILE_CONTENT (join '' '' (map page_text [Some (replicate 1000 CHR ''b''), None]))
   \<and> process_file (\<lambda>bs. replicate (length bs) CHR ''a'')
        \<lparr>name = ''d'', content_type = ''application/pdf'', read = Inr [],
          pdf_pages = Inr (map Inr [Some (replicate 1000 CHR ''b''), None])\<rparr>
       = process_file (\<lambda>bs. replicate (length bs) CHR ''a'')
           \<lparr>name = ''d'', content_type = ''application/pdf'', read = Inr [],
             pdf_pages = Inr (map Inr [Some (replicate 1000 CHR ''b'')])\<rparr>"
proof -
  let ?d = "\<lambda>bs::byte list. replicate (length bs) CHR ''a''"
  let ?f1 = "\<lparr>name = ''n'', content_type = ''text/plain'',
              read = Inr (replicate 1001 (0::byte)), pdf_pages = Inr []\<rparr>"
  let ?f2 = "\<lparr>name = ''n'', content_type = ''text/plain'',
              read = Inr (replicate 1000 (0::byte)), pdf_pages = Inr []\<rparr>"
  let ?g1 = "\<lparr>name = ''d'', content_type = ''application/pdf'', read = Inr ([]::byte list),
              pdf_pages = Inr (map Inr [Some (replicate 1000 CHR ''b''), None])\<rparr>"
  let ?g2 = "\<lparr>name = ''d'', content_type = ''application/pdf'', read = Inr ([]::byte list),
              pdf_pages = Inr (map Inr [Some (replicate 1000 CHR ''b'')])\<rparr>"
  let ?s = "''FILE_CONTENT:n: '' @ replicate 1000 CHR ''a'' @ ''...''"
  have h1: "?d (replicate 1000 0) = take MAX_FILE_CONTENT (?d (replicate 1001 0))"
    by (simp add: MAX_FILE_CONTENT_def)
  have h2: "process_file ?d ?f1 = Inr ?s"
    by (simp add: process_file_def MAX_FILE_CONTENT_def)
  have h3: "join '' '' (map page_text [Some (replicate 1000 CHR ''b'')])
       = take MAX_FILE_CONTENT (join '' '' (map page_text [Some (replicate 1000 CHR ''b''), None]))"
    by (simp add: page_text_def MAX_FILE_CONTENT_def)
  from snippet_ends_with_ellipsis[of ?d ?f1 ?s ?f1 ?f2 "replicate 1001 0" "replicate 1000 0"
      ?g1 ?g2 "[Some (replicate 1000 CHR ''b''), None]" "[Some (replicate 1000 CHR ''b'')]"]
    h1 h2 h3
  show ?thesis by simp
qed


section \<open>Properties of query_deepseek\<close>

lemma extract_content_missing:
  "map_of kvs ''choices'' = None \<Longrightarrow> extract_content (JObj kvs) = Inr (JStr [])"
  "map_of kvs ''choices'' = Some (JArr (JObj cs # rest)) \<Longrightarrow> map_of cs ''message'' = None \<Longrightarrow>
     extract_content (JObj kvs) = Inr (JStr [])"
  "map_of kvs ''choices'' = Some (JArr (JObj cs # rest)) \<Longrightarrow> map_of cs ''message'' = Some (JObj ms) \<Longrightarrow>
     map_of ms ''content'' = None \<Longrightarrow> extract_content (JObj kvs) = Inr (JStr [])"
  by (simp_all add: extract_content_def)

lemma extract_content_present:
  "map_of kvs ''choices'' = Some (JArr (JObj cs # rest)) \<Longrightarrow> map_of cs ''message'' = Some (JObj ms) \<Longrightarrow>
     map_of ms ''content'' = Some v \<Longrightarrow> extract_content (JObj kvs) = Inr v"
  by (simp add: extract_content_def)

lemma query_body_post_raises:
  "post \<lparr>model = mdl,
         payload_messages = fst (get_context mm sp st) @ [\<lparr>role = ''user'', content = JStr prompt\<rparr>],
         temperature = temp\<rparr> = PostRaises e \<Longrightarrow>
     query_body post mm prompt sp mdl temp st = (Inl e, st)"
  by (simp add: query_body_def)

lemma query_body_not_200:
  "post \<lparr>model = mdl,
         payload_messages = fst (get_context mm sp st) @ [\<lparr>role = ''user'', content = JStr prompt\<rparr>],
         temperature = temp\<rparr> = Response status body \<Longrightarrow> status \<noteq> 200 \<Longrightarrow>
     query_body post mm prompt sp mdl temp st
       = (if 400 \<le> status \<and> status < 600 then Inl (RequestException ''HTTPError'') else Inr None, st)"
  by (simp add: query_body_def)


text \<open>
  C4. For every transport-level failure (\<open>post\<close> raises a \<^verbatim>\<open>RequestException\<close>, such as a
  connection error or a timeout, or the response has a status outside 200..299),
  \<^verbatim>\<open>query_deepseek\<close> returns \<^verbatim>\<open>None\<close> rather than raising, and the session state is the one
  before the call.
\<close>

theorem transport_failure_returns_None:
  assumes "post key \<lparr>model = mdl,
             payload_messages = fst (get_context max_messages system_prompt st)
                @ [\<lparr>role = ''user'', content = JStr prompt\<rparr>],
             temperature = temp\<rparr> = outcome"
    and "(\<exists>msg. outcome = PostRaises (RequestException msg))
       \<or> (\<exists>status body. outcome = Response status body \<and> \<not> (200 \<le> status \<and> status < 300))"
  shows "query_deepseek post (Some key) max_messages prompt system_prompt mdl temp st = (Inr None, st)"
proof -
  from assms(2) consider
      (raises) msg where "outcome = PostRaises (RequestException msg)"
    | (status) status body where "outcome = Response status body" "\<not> (200 \<le> status \<and> status < 300)"
    by blast
  then show ?thesis
  proof cases
    case raises
    with assms(1) have "query_body (post key) max_messages prompt system_prompt mdl temp st
        = (Inl (RequestException msg), st)"
      by (simp add: query_body_post_raises)
    then show ?thesis by (simp add: query_deepseek_def)
  next
    case status
    then have "status \<noteq> 200" by auto
    with assms(1) status(1) have "query_body (post key) max_messages prompt system_prompt mdl temp st
        = (if 400 \<le> status \<and> status < 600 then Inl (RequestException ''HTTPError'') else Inr None, st)"
      by (simp add: query_body_not_200)
    then show ?thesis by (simp add: query_deepseek_def)
  qed
qed

theorem transport_failure_returns_None_witness:
  "query_deepseek (\<lambda>key payload. PostRaises (RequestException ''ConnectionError''))
     (Some ''key'') 8 ''hi'' ''sys'' ''deepseek-chat'' ()
     \<lparr>messages = [\<lparr>role = ''user'', content = JStr ''a''\<rparr>],
       full_history = [\<lparr>role = ''user'', content = JStr ''a''\<rparr>]\<rparr>
    = (Inr None, \<lparr>messages = [\<lparr>role = ''user'', content = JStr ''a''\<rparr>],
                  full_history = [\<lparr>role = ''user'', content = JStr ''a''\<rparr>]\<rparr>)
   \<and> query_deepseek (\<lambda>key payload. Response 503 (Inl (RequestException ''JSONDecodeError'')))
     (Some ''key'') 8 ''hi'' ''sys'' ''deepseek-chat'' ()
     \<lparr>messages = [\<lparr>role = ''user'', content = JStr ''a''\<rparr>],
       full_history = [\<lparr>role = ''user'', content = JStr ''a''\<rparr>]\<rparr>
    = (Inr None, \<lparr>messages = [\<lparr>role = ''user'', content = JStr ''a''\<rparr>],
                  full_history = [\<lparr>role = ''user'', content = JStr ''a''\<rparr>]\<rparr>)"
proof -
  let ?st = "\<lparr>messages = [\<lparr>role = ''user'', content = JStr ''a''\<rparr>],
              full_history = [\<lparr>role = ''user'', content = JStr ''a''\<rparr>]\<rparr>"
  have a: "query_deepseek (\<lambda>key payload. PostRaises (RequestException ''ConnectionError''))
     (Some ''key'') 8 ''hi'' ''sys'' ''deepseek-chat'' () ?st = (Inr None, ?st)"
    by (rule transport_failure_returns_None[where outcome = "PostRaises (RequestException ''ConnectionError'')"])
       simp_all
  have b: "query_deepseek (\<lambda>key payload. Response 503 (Inl (RequestException ''JSONDecodeError'')))
     (Some ''key'') 8 ''hi'' ''sys'' ''deepseek-chat'' () ?st = (Inr None, ?st)"
    by (rule transport_failure_returns_None[where outcome = "Response 503 (Inl (RequestException ''JSONDecodeError''))"])
       simp_all
  from a b show ?thesis by simp
qed






text \<open>
  C3, evaluated where the code departs from it: on a 200 response with the body
  \<^verbatim>\<open>{"choices": []}\<close> the first element of \<^verbatim>\<open>choices\<close> is missing, the subscript \<^verbatim>\<open>[0]\<close>
  raises \<^verbatim>\<open>IndexError\<close>, and \<^verbatim>\<open>query_deepseek\<close> raises it to its caller, since it is not
  a \<^verbatim>\<open>RequestException\<close>.
\<close>

theorem extract_content_empty_choices:
  "extract_content (JObj [(''choices'', JArr [])]) = Inl IndexError
   \<and> query_deepseek (\<lambda>key payload. Response 200 (Inr (JObj [(''choices'', JArr [])])))
        (Some ''key'') 8 ''hi'' ''sys'' ''deepseek-chat'' () (initialize_session None)
     = (Inl IndexError, initialize_session None)"
  by (simp add: extract_content_def query_deepseek_def query_body_def)

end
